theory Spec2Isabelle
  imports Complex_Main "HOL-Library.AList" "HOL-Library.Signed_Division"
begin

section \<open>Instrumentation of a sort for visualisation (gdb_util/instrument_srs.py)\<close>

text \<open>
  The module has a front end, which runs in the debugger's thread when a breakpoint is
  hit and pushes operation records onto a queue, and a back end, which runs in the
  thread of the user interface, takes records off the queue on a timer and updates
  the list of displayed elements and the dictionary of temporaries.

  Both ends are methods of the class \<open>GuiThread\<close>; the breakpoints and their command
  lists are module-level objects. The embedding keeps the names of the source where
  Isabelle allows it: \<open>size\<close> and \<open>values\<close> are taken, so the fields are \<open>size_v\<close> and
  \<open>values_v\<close>, and the leading underscore of the private methods is dropped.
\<close>

subsection \<open>Values of the debugger: pointers\<close>

text \<open>
  The operands that the breakpoint commands pass on are \<open>gdb.Value\<close> pointers to
  elements of the vector. A pointer is modelled by its byte address; the size of the
  pointed-to type (the stride of the vector) is the parameter \<open>stride\<close> of every
  function that does pointer arithmetic. Adding an integer to a pointer advances it by
  that many elements, the difference of two pointers is the difference of the addresses
  divided by the element size with C's division (truncation towards zero), and pointers
  compare as their addresses do. Addresses are not bounded to 64 bits here.
\<close>

type_synonym addr = nat

definition ptr_add :: "nat \<Rightarrow> addr \<Rightarrow> nat \<Rightarrow> addr" where
  "ptr_add stride p n = p + n * stride"

definition ptr_diff :: "nat \<Rightarrow> addr \<Rightarrow> addr \<Rightarrow> int" where
  "ptr_diff stride p q = (int p - int q) sdiv int stride"

text \<open>
  \<open>str\<close> of a pointer value is its address in hexadecimal, as the debugger prints
  pointers: \<open>0x\<close> followed by the digits, without leading zeros.
\<close>

definition hex_digit :: "nat \<Rightarrow> char" where
  "hex_digit d = ''0123456789abcdef'' ! d"

fun hex :: "nat \<Rightarrow> string" where
  "hex n = (if n < 16 then [hex_digit n] else hex (n div 16) @ [hex_digit (n mod 16)])"

declare hex.simps [simp del]

definition str_ptr :: "addr \<Rightarrow> string" where
  "str_ptr p = ''0x'' @ hex p"

subsection \<open>Operation records, errors, the state of a GuiThread\<close>

text \<open>
  A record on the queue is the tuple \<open>(tp, src, dst)\<close> of \<open>_send_message\<close>. The four
  tags that the front end sends are \<open>'swap'\<close>, \<open>'move'\<close>, \<open>'move_from_temp'\<close> and
  \<open>'move_to_temp'\<close>; a slot index is a Python int and a temporary is the string form of
  its address. \<open>Unknown\<close> stands for a tuple with any other tag, with its two operands
  as they are printed. The back end tests the tag with \<open>is\<close> against string literals
  of the same module, which are the same interned objects as the literals that the
  front end passes: the test is modelled as equality of tags.
\<close>

datatype message =
    Swap int int
  | Move int int
  | MoveFromTemp string int
  | MoveToTemp int string
  | Unknown string string string

datatype error =
    RuntimeError string
  | KeyError string
  | IndexError
  | AttributeError

text \<open>
  A method either returns, leaving the object in a new state, or raises, leaving the
  object in the state it had reached when the exception was raised.
\<close>

datatype 'a outcome = Ok 'a | Raised error 'a

fun state_of :: "'a outcome \<Rightarrow> 'a" where
  "state_of (Ok g) = g"
| "state_of (Raised e g) = g"

fun raised :: "'a outcome \<Rightarrow> error option" where
  "raised (Ok g) = None"
| "raised (Raised e g) = Some e"

type_synonym QPointF = "rat \<times> rat"

text \<open>
  An element on the display is an \<open>AnimProxy\<close> object. The proxy made for index \<open>idx\<close>
  of the vector is referred to by the number \<open>idx\<close>; its value is \<open>values ! idx\<close> and
  never changes. A slot of \<open>elements\<close> holds a reference to a proxy or \<open>None\<close>.
  An animation is recorded with its target, its duration and its key values.
\<close>

record QPropertyAnimation =
  target :: "nat option"
  duration :: nat
  keyValues :: "(rat \<times> QPointF) list"

text \<open>
  \<open>temp_elements\<close> is a dictionary from the string of an address to a pair of a
  position and an element or \<open>None\<close>. It is an association list in the order of
  insertion, updated with \<open>AList.update\<close>, so that its length is \<open>len\<close> of the dictionary.
  \<open>proxy_pos\<close> is the position that each proxy reports through its property \<open>pos\<close>:
  the position given at construction, then the end value of the last animation started
  on it (the timer polls every 500 ms and an animation lasts at most 400 ms).
  \<open>stdout\<close> collects the lines printed.
\<close>

record GuiThread =
  base_addr :: addr
  size_v :: nat
  messages :: "message list"
  values_v :: "int list"
  animations :: "QPropertyAnimation list"
  elements :: "nat option list"
  temp_elements :: "(string \<times> QPointF \<times> nat option) list"
  proxy_pos :: "nat \<Rightarrow> QPointF"
  stdout :: "string list"

text \<open>
  \<open>__init__\<close> reads the \<open>size\<close> elements of the vector from the memory of the traced
  program; \<open>deref\<close> is that memory, giving the int stored in the element at an address.
\<close>

definition GuiThread_init :: "nat \<Rightarrow> (addr \<Rightarrow> int) \<Rightarrow> addr \<Rightarrow> nat \<Rightarrow> GuiThread" where
  "GuiThread_init stride deref base sz =
     \<lparr> base_addr = base, size_v = sz, messages = [],
       values_v = map (\<lambda>idx. deref (ptr_add stride base idx)) [0..<sz],
       animations = [], elements = [], temp_elements = [],
       proxy_pos = (\<lambda>_. (0, 0)), stdout = [] \<rparr>"

text \<open>
  \<open>run\<close>, up to the start of the event loop: one proxy per value, at
  \<open>(20 + 20 * idx, 20)\<close>, and an empty dictionary of temporaries.
\<close>

definition run :: "GuiThread \<Rightarrow> GuiThread" where
  "run g = g\<lparr> elements := map Some [0..<length (values_v g)],
              temp_elements := [],
              proxy_pos := (\<lambda>idx. (20 + 20 * of_nat idx, 20)) \<rparr>"

subsection \<open>The front end: \<open>show_swap\<close>, \<open>show_move\<close>, \<open>_send_message\<close>\<close>

definition send_message :: "message \<Rightarrow> GuiThread \<Rightarrow> GuiThread" where
  "send_message m g = g\<lparr> messages := messages g @ [m] \<rparr>"

text \<open>\<open>show_swap(a, b)\<close>; the arguments here are \<open>a.address\<close> and \<open>b.address\<close>.\<close>

definition show_swap :: "nat \<Rightarrow> addr \<Rightarrow> addr \<Rightarrow> GuiThread \<Rightarrow> GuiThread" where
  "show_swap stride a_address b_address g =
     (let a_idx = ptr_diff stride a_address (base_addr g);
          b_idx = ptr_diff stride b_address (base_addr g)
      in send_message (Swap a_idx b_idx) g)"

text \<open>
  \<open>show_move(a, b)\<close>: \<open>a\<close> is the destination, a pointer, and \<open>b\<close> the source, a
  reference whose address is \<open>b.address\<close>.
\<close>

definition show_move :: "nat \<Rightarrow> addr \<Rightarrow> addr \<Rightarrow> GuiThread \<Rightarrow> GuiThread outcome" where
  "show_move stride a b_address g =
     (let a_in_vec = (a \<ge> base_addr g \<and> a < ptr_add stride (base_addr g) (size_v g));
          b_in_vec = (b_address \<ge> base_addr g
                      \<and> b_address < ptr_add stride (base_addr g) (size_v g))
      in if a_in_vec \<and> b_in_vec then
           (let a_idx = ptr_diff stride a (base_addr g);
                b_idx = ptr_diff stride b_address (base_addr g)
            in Ok (send_message (Move b_idx a_idx) g))
         else if a_in_vec then
           (let a_idx = ptr_diff stride a (base_addr g)
            in Ok (send_message (MoveFromTemp (str_ptr b_address) a_idx) g))
         else if b_in_vec then
           (let b_idx = ptr_diff stride b_address (base_addr g)
            in Ok (send_message (MoveToTemp b_idx (str_ptr a)) g))
         else
           Raised (RuntimeError ''saw an unexpected move from temporary to temporary'') g)"

subsection \<open>The back end: \<open>_check_for_messages\<close>, \<open>_perform_move\<close>, \<open>_perform_swap\<close>\<close>

text \<open>
  Indexing a Python list: an index from \<open>-len\<close> to \<open>-1\<close> counts from the end, an index
  outside \<open>-len .. len - 1\<close> raises \<open>IndexError\<close>. \<open>py_index\<close> gives the position that
  an index denotes, if any.
\<close>

definition py_index :: "'a list \<Rightarrow> int \<Rightarrow> nat option" where
  "py_index xs i =
     (let n = int (length xs)
      in if 0 \<le> i \<and> i < n then Some (nat i)
         else if - n \<le> i \<and> i < 0 then Some (nat (n + i))
         else None)"

text \<open>
  \<open>_perform_move(a, pos)\<close> starts an animation of 200 ms on \<open>a\<close> that ends at \<open>pos\<close>
  and keeps it in \<open>animations\<close>. The target may be \<open>None\<close>: the animation is then
  created without a target and moves nothing.
\<close>

definition perform_move :: "nat option \<Rightarrow> QPointF \<Rightarrow> GuiThread \<Rightarrow> GuiThread" where
  "perform_move a pos g =
     (let anim = \<lparr> target = a, duration = 200, keyValues = [(1, pos)] \<rparr>
      in g\<lparr> animations := animations g @ [anim],
             proxy_pos := (case a of None \<Rightarrow> proxy_pos g
                           | Some p \<Rightarrow> (proxy_pos g)(p := pos)) \<rparr>)"

text \<open>
  \<open>_perform_swap(a, b)\<close> reads both slots, then the position of both elements
  (\<open>None\<close> has no attribute \<open>pos\<close>), animates the exchange and updates the list.
\<close>

definition perform_swap :: "int \<Rightarrow> int \<Rightarrow> GuiThread \<Rightarrow> GuiThread outcome" where
  "perform_swap a b g =
     (case py_index (elements g) a of
        None \<Rightarrow> Raised IndexError g
      | Some ia \<Rightarrow>
     (case py_index (elements g) b of
        None \<Rightarrow> Raised IndexError g
      | Some ib \<Rightarrow>
     (case elements g ! ia of
        None \<Rightarrow> Raised AttributeError g
      | Some elt_a \<Rightarrow>
     (case elements g ! ib of
        None \<Rightarrow> Raised AttributeError g
      | Some elt_b \<Rightarrow>
        (let pos_a = proxy_pos g elt_a;
             pos_b = proxy_pos g elt_b;
             pos_between = ((fst pos_a + fst pos_b) / 2, (snd pos_a + snd pos_b) / 2);
             pos_above = (fst pos_between, - 10);
             pos_below = (fst pos_between, 50);
             anim_a = \<lparr> target = Some elt_a, duration = 400,
                        keyValues = [(1 / 2, pos_above), (1, pos_b)] \<rparr>;
             anim_b = \<lparr> target = Some elt_b, duration = 400,
                        keyValues = [(1 / 2, pos_below), (1, pos_a)] \<rparr>
         in Ok (g\<lparr> animations := animations g @ [anim_a, anim_b],
                    proxy_pos := ((proxy_pos g)(elt_a := pos_b))(elt_b := pos_a),
                    elements := ((elements g)[ia := Some elt_b])[ib := Some elt_a] \<rparr>))))))"

text \<open>The branch for \<open>'move'\<close>, with \<open>a\<close> the source and \<open>b\<close> the destination.\<close>

definition op_move :: "int \<Rightarrow> int \<Rightarrow> GuiThread \<Rightarrow> GuiThread outcome" where
  "op_move a b g =
     (case py_index (elements g) a of
        None \<Rightarrow> Raised IndexError g
      | Some ia \<Rightarrow>
     (case py_index (elements g) b of
        None \<Rightarrow> Raised IndexError g
      | Some ib \<Rightarrow>
        (let es1 = (elements g)[ib := elements g ! ia];
             es2 = es1[ia := None];
             g2 = g\<lparr> elements := es2 \<rparr>
         in Ok (perform_move (es2 ! ib) (20 + 20 * of_int b, 20) g2))))"

text \<open>
  The branch for \<open>'move_from_temp'\<close>, with \<open>a\<close> the temporary and \<open>b\<close> the
  destination. The dictionary is read first (a missing key raises \<open>KeyError\<close>) and
  written before the list is.
\<close>

definition op_move_from_temp :: "string \<Rightarrow> int \<Rightarrow> GuiThread \<Rightarrow> GuiThread outcome" where
  "op_move_from_temp a b g =
     (case map_of (temp_elements g) a of
        None \<Rightarrow> Raised (KeyError a) g
      | Some (pos, temp_elt) \<Rightarrow>
        (let g1 = g\<lparr> temp_elements := AList.update a (pos, None) (temp_elements g) \<rparr>;
             g2 = perform_move temp_elt (20 + 20 * of_int b, 20) g1
         in case py_index (elements g2) b of
              None \<Rightarrow> Raised IndexError g2
            | Some ib \<Rightarrow> Ok (g2\<lparr> elements := (elements g2)[ib := temp_elt] \<rparr>)))"

text \<open>
  The branch for \<open>'move_to_temp'\<close>, with \<open>a\<close> the source and \<open>b\<close> the temporary.
\<close>

definition op_move_to_temp :: "int \<Rightarrow> string \<Rightarrow> GuiThread \<Rightarrow> GuiThread outcome" where
  "op_move_to_temp a b g =
     (let pos = (case map_of (temp_elements g) b of
                   Some (pos, temp_elt) \<Rightarrow> pos
                 | None \<Rightarrow> (20 + 20 * of_nat (length (temp_elements g)), 60))
      in case py_index (elements g) a of
           None \<Rightarrow> Raised IndexError g
         | Some ia \<Rightarrow>
           (let g1 = perform_move (elements g ! ia) pos g;
                g2 = g1\<lparr> temp_elements :=
                           AList.update b (pos, elements g1 ! ia) (temp_elements g1) \<rparr>
            in Ok (g2\<lparr> elements := (elements g2)[ia := None] \<rparr>)))"

text \<open>The chain of tests on \<open>op\<close>, applied to a record that has been taken off the queue.\<close>

fun apply_record :: "message \<Rightarrow> GuiThread \<Rightarrow> GuiThread outcome" where
  "apply_record (Swap a b) g = perform_swap a b g"
| "apply_record (Move a b) g = op_move a b g"
| "apply_record (MoveFromTemp a b) g = op_move_from_temp a b g"
| "apply_record (MoveToTemp a b) g = op_move_to_temp a b g"
| "apply_record (Unknown tp a b) g =
     Ok (g\<lparr> stdout := stdout g @ [''unknown move command from '' @ a @ '' to '' @ b] \<rparr>)"

text \<open>
  \<open>_check_for_messages\<close>, the slot of the timer: if the queue is not empty, one
  record is taken off it and applied.
\<close>

definition check_for_messages :: "GuiThread \<Rightarrow> GuiThread outcome" where
  "check_for_messages g =
     (if messages g \<noteq> [] then
        apply_record (hd (messages g)) (g\<lparr> messages := tl (messages g) \<rparr>)
      else Ok g)"

text \<open>
  The timer fires again and again. \<open>polls k\<close> is \<open>k\<close> firings in a row with nothing
  pushed in between, and \<open>apply_records\<close> applies a list of records one after the
  other; both stop at the first exception.
\<close>

fun polls :: "nat \<Rightarrow> GuiThread \<Rightarrow> GuiThread outcome" where
  "polls 0 g = Ok g"
| "polls (Suc k) g =
     (case check_for_messages g of
        Ok g' \<Rightarrow> polls k g'
      | Raised e g' \<Rightarrow> Raised e g')"

fun apply_records :: "message list \<Rightarrow> GuiThread \<Rightarrow> GuiThread outcome" where
  "apply_records [] g = Ok g"
| "apply_records (m # ms) g =
     (case apply_record m g of
        Ok g' \<Rightarrow> apply_records ms g'
      | Raised e g' \<Rightarrow> Raised e g')"

text \<open>The states reached after each record of a list, up to the first exception.\<close>

fun states_after :: "message list \<Rightarrow> GuiThread \<Rightarrow> GuiThread list" where
  "states_after [] g = []"
| "states_after (m # ms) g =
     (case apply_record m g of
        Ok g' \<Rightarrow> g' # states_after ms g'
      | Raised e g' \<Rightarrow> [g'])"

subsection \<open>The breakpoints and their command lists\<close>

text \<open>
  The module creates four breakpoints, on the swap of two elements, on the move
  constructor, on the move assignment and on the sort, and gives each a list of
  commands that the debugger runs when the traced program stops there. A session
  holds the \<open>enabled\<close> flag of each breakpoint, the module's global \<open>gui\<close>, and the
  call stack of the traced program, newest frame first, with the finish breakpoint
  that has been set on each frame, if any: \<open>finish_bp\<close>, set by the commands of the
  sort and without commands of its own, or \<open>fbp\<close>, set by the commands of the swap.
  A finish breakpoint is hit when its frame returns and is then gone.
\<close>

datatype FinishBreakpoint = finish_bp | fbp

record Session =
  swap_bp :: bool
  move_bp :: bool
  move_assign_bp :: bool
  sort_bp :: bool
  gui :: "GuiThread option"
  frames :: "FinishBreakpoint option list"

text \<open>
  What the traced program does next: it calls one of the four functions (with the
  addresses that the commands read from the new frame: \<open>a\<close> and \<open>b\<close> of the swap,
  \<open>this\<close> and \<open>other\<close> of a move, the start of the vector and its length for the
  sort), calls any other function, or returns from the newest frame.
\<close>

datatype event =
    Call_swap addr addr
  | Call_move addr addr
  | Call_move_assign addr addr
  | Call_sort addr nat
  | Call_other
  | Return

text \<open>
  After an event the program is running again (the commands ended with \<open>c\<close>, or no
  enabled breakpoint was hit), or it is stopped at the prompt: at a breakpoint without
  a \<open>c\<close>, or because a command failed, which ends the command list.
\<close>

datatype status = Running Session | Stopped "error option" Session

definition initial_session :: Session where
  "initial_session =
     \<lparr> swap_bp = False, move_bp = False, move_assign_bp = False, sort_bp = True,
       gui = None, frames = [] \<rparr>"

definition set_finish :: "FinishBreakpoint \<Rightarrow> FinishBreakpoint option list
                          \<Rightarrow> FinishBreakpoint option list" where
  "set_finish f fs = (case fs of [] \<Rightarrow> [] | _ # rest \<Rightarrow> Some f # rest)"

text \<open>
  \<open>sort_bp.commands\<close>: a finish breakpoint on the frame of the sort, the GuiThread
  made from the vector and started, the three other breakpoints enabled, \<open>c\<close>.
  Starting the thread is modelled by its set-up in \<open>run\<close>.
\<close>

definition sort_bp_commands :: "nat \<Rightarrow> (addr \<Rightarrow> int) \<Rightarrow> addr \<Rightarrow> nat \<Rightarrow> Session \<Rightarrow> status" where
  "sort_bp_commands stride deref start n s =
     Running (s\<lparr> frames := set_finish finish_bp (frames s),
                 gui := Some (run (GuiThread_init stride deref start n)),
                 swap_bp := True, move_bp := True, move_assign_bp := True \<rparr>)"

text \<open>
  \<open>swap_bp.commands\<close>: \<open>show_swap\<close>, the two move breakpoints disabled, a finish
  breakpoint on the frame of the swap whose commands enable them again, \<open>c\<close>.
  Without a \<open>gui\<close> the first command fails.
\<close>

definition swap_bp_commands :: "nat \<Rightarrow> addr \<Rightarrow> addr \<Rightarrow> Session \<Rightarrow> status" where
  "swap_bp_commands stride a b s =
     (case gui s of
        None \<Rightarrow> Stopped (Some AttributeError) s
      | Some g \<Rightarrow>
          Running (s\<lparr> gui := Some (show_swap stride a b g),
                      move_bp := False, move_assign_bp := False,
                      frames := set_finish fbp (frames s) \<rparr>))"

definition fbp_commands :: "Session \<Rightarrow> status" where
  "fbp_commands s = Running (s\<lparr> move_bp := True, move_assign_bp := True \<rparr>)"

text \<open>\<open>move_commands\<close>, of both move breakpoints: \<open>show_move\<close>, \<open>c\<close>.\<close>

definition move_commands :: "nat \<Rightarrow> addr \<Rightarrow> addr \<Rightarrow> Session \<Rightarrow> status" where
  "move_commands stride this other s =
     (case gui s of
        None \<Rightarrow> Stopped (Some AttributeError) s
      | Some g \<Rightarrow>
          (case show_move stride this other g of
             Ok g' \<Rightarrow> Running (s\<lparr> gui := Some g' \<rparr>)
           | Raised e g' \<Rightarrow> Stopped (Some e) (s\<lparr> gui := Some g' \<rparr>)))"

definition push_frame :: "Session \<Rightarrow> Session" where
  "push_frame s = s\<lparr> frames := None # frames s \<rparr>"

fun hit :: "nat \<Rightarrow> (addr \<Rightarrow> int) \<Rightarrow> event \<Rightarrow> Session \<Rightarrow> status" where
  "hit stride deref (Call_swap a b) s =
     (if swap_bp s then swap_bp_commands stride a b (push_frame s)
      else Running (push_frame s))"
| "hit stride deref (Call_move this other) s =
     (if move_bp s then move_commands stride this other (push_frame s)
      else Running (push_frame s))"
| "hit stride deref (Call_move_assign this other) s =
     (if move_assign_bp s then move_commands stride this other (push_frame s)
      else Running (push_frame s))"
| "hit stride deref (Call_sort start n) s =
     (if sort_bp s then sort_bp_commands stride deref start n (push_frame s)
      else Running (push_frame s))"
| "hit stride deref Call_other s = Running (push_frame s)"
| "hit stride deref Return s =
     (case frames s of
        [] \<Rightarrow> Stopped None s
      | f # fs \<Rightarrow>
          (case f of
             None \<Rightarrow> Running (s\<lparr> frames := fs \<rparr>)
           | Some finish_bp \<Rightarrow> Stopped None (s\<lparr> frames := fs \<rparr>)
           | Some fbp \<Rightarrow> fbp_commands (s\<lparr> frames := fs \<rparr>)))"

fun run_events :: "nat \<Rightarrow> (addr \<Rightarrow> int) \<Rightarrow> event list \<Rightarrow> Session \<Rightarrow> status" where
  "run_events stride deref [] s = Running s"
| "run_events stride deref (e # es) s =
     (case hit stride deref e s of
        Running s' \<Rightarrow> run_events stride deref es s'
      | Stopped err s' \<Rightarrow> Stopped err s')"

text \<open>
  The events inside one call of the swap: calls of the two moves and of other
  functions, and their returns, properly nested. \<open>moves_within d es\<close> holds when \<open>es\<close>
  starts with \<open>d\<close> frames open above the frame of the swap, never returns from the
  frame of the swap itself, and ends with none open.
\<close>

fun moves_within :: "nat \<Rightarrow> event list \<Rightarrow> bool" where
  "moves_within d [] = (d = 0)"
| "moves_within d (Call_move this other # es) = moves_within (Suc d) es"
| "moves_within d (Call_move_assign this other # es) = moves_within (Suc d) es"
| "moves_within d (Call_other # es) = moves_within (Suc d) es"
| "moves_within d (Return # es) = (0 < d \<and> moves_within (d - 1) es)"
| "moves_within d (Call_swap a b # es) = False"
| "moves_within d (Call_sort start n # es) = False"

subsection \<open>Notions used to state the properties\<close>

text \<open>
  The classifier in the words of the specification: an address inside
  \<open>base .. base + count * stride\<close> is the slot \<open>(address - base) / stride\<close>, any other
  address is a token, the address as a string. It is compared below with what
  \<open>show_move\<close> computes for each of its two operands.
\<close>

datatype location = Slot int | Token string

definition classify_spec :: "nat \<Rightarrow> addr \<Rightarrow> nat \<Rightarrow> addr \<Rightarrow> location" where
  "classify_spec stride base count address =
     (if base \<le> address \<and> address < base + count * stride
      then Slot (int ((address - base) div stride))
      else Token (str_ptr address))"

text \<open>Reading a hexadecimal string back, to show that \<open>str_ptr\<close> loses nothing.\<close>

definition digit_val :: "char \<Rightarrow> nat" where
  "digit_val c = length (takeWhile (\<lambda>d. d \<noteq> c) ''0123456789abcdef'')"

definition hex_val :: "string \<Rightarrow> nat" where
  "hex_val s = foldl (\<lambda>acc c. 16 * acc + digit_val c) 0 s"

text \<open>
  The number of elements held: the slots that are not \<open>None\<close> and the entries of
  the dictionary of temporaries whose element is not \<open>None\<close>.
\<close>

definition live :: "string \<times> QPointF \<times> nat option \<Rightarrow> bool" where
  "live entry = (snd (snd entry) \<noteq> None)"

definition held :: "GuiThread \<Rightarrow> nat" where
  "held g = length (filter (\<lambda>e. e \<noteq> None) (elements g))
            + length (filter live (temp_elements g))"

text \<open>
  The destination of a record is empty: the slot written by \<open>'move'\<close> or
  \<open>'move_from_temp'\<close> holds \<open>None\<close>, the temporary written by \<open>'move_to_temp'\<close> is
  unknown or holds \<open>None\<close>. A swap has no destination.
\<close>

fun dest_empty :: "message \<Rightarrow> GuiThread \<Rightarrow> bool" where
  "dest_empty (Swap a b) g = True"
| "dest_empty (Move a b) g =
     (case py_index (elements g) b of None \<Rightarrow> False | Some ib \<Rightarrow> elements g ! ib = None)"
| "dest_empty (MoveFromTemp a b) g =
     (case py_index (elements g) b of None \<Rightarrow> False | Some ib \<Rightarrow> elements g ! ib = None)"
| "dest_empty (MoveToTemp a b) g =
     (case map_of (temp_elements g) b of None \<Rightarrow> True | Some (pos, elt) \<Rightarrow> elt = None)"
| "dest_empty (Unknown tp a b) g = True"

text \<open>
  Every record of the list is applied to an empty destination and without an
  exception.
\<close>

fun clean :: "message list \<Rightarrow> GuiThread \<Rightarrow> bool" where
  "clean [] g = True"
| "clean (m # ms) g =
     (dest_empty m g \<and>
      (case apply_record m g of Ok g' \<Rightarrow> clean ms g' | Raised e g' \<Rightarrow> False))"

text \<open>The values shown in the slots, \<open>None\<close> for an empty slot.\<close>

definition slot_values :: "GuiThread \<Rightarrow> int option list" where
  "slot_values g = map (map_option (\<lambda>p. values_v g ! p)) (elements g)"

text \<open>
  The vector \<open>[3, 1, 4, 2]\<close> of four-byte elements at address 4096, and the GuiThread
  made from it.
\<close>

definition example_mem :: "addr \<Rightarrow> int" where
  "example_mem p = (if p = 4096 then 3 else if p = 4100 then 1
                    else if p = 4104 then 4 else if p = 4108 then 2 else 0)"

definition example_gui :: GuiThread where
  "example_gui = run (GuiThread_init 4 example_mem 4096 4)"

section \<open>Properties of the front end\<close>

subsection \<open>Pointer differences and the string of an address\<close>

lemma ptr_diff_nonneg: "q \<le> p \<Longrightarrow> ptr_diff stride p q = int ((p - q) div stride)"
  by (simp add: ptr_diff_def signed_divide_int_def sgn_if zdiv_int of_nat_diff)

lemma ptr_diff_below: "0 < stride \<Longrightarrow> p + stride \<le> q \<Longrightarrow> ptr_diff stride p q < 0"
proof -
  assume s: "0 < stride" and le: "p + stride \<le> q"
  have "int p - int q = - int (q - p)" using le by simp
  moreover have "0 < (q - p) div stride" using s le by (simp add: div_greater_zero_iff)
  moreover have "\<not> q \<le> p" using s le by simp
  ultimately show ?thesis
    using s by (simp add: ptr_diff_def signed_divide_int_def sgn_if zdiv_int [symmetric]
                     del: of_nat_diff)
qed

lemma ptr_diff_beyond:
  "0 < stride \<Longrightarrow> q + n * stride \<le> p \<Longrightarrow> int n \<le> ptr_diff stride p q"
proof -
  assume s: "0 < stride" and le: "q + n * stride \<le> p"
  then have "n * stride \<le> p - q" by simp
  then have "n \<le> (p - q) div stride" using s by (simp add: less_eq_div_iff_mult_less_eq)
  moreover have "q \<le> p" using le by simp
  ultimately show ?thesis by (simp add: ptr_diff_nonneg)
qed

lemma digit_val_hex_digit: "d < 16 \<Longrightarrow> digit_val (hex_digit d) = d"
proof -
  have "\<forall>d \<in> set [0..<16]. digit_val (hex_digit d) = d"
    by code_simp
  then show "d < 16 \<Longrightarrow> digit_val (hex_digit d) = d" by simp
qed

lemma hex_val_snoc: "hex_val (s @ [c]) = 16 * hex_val s + digit_val c"
  by (simp add: hex_val_def)

lemma hex_val_hex: "hex_val (hex n) = n"
proof (induction n rule: hex.induct)
  case (1 n)
  show ?case
  proof (cases "n < 16")
    case True
    then show ?thesis by (simp add: hex.simps [of n] hex_val_def digit_val_hex_digit)
  next
    case False
    then have "hex_val (hex (n div 16)) = n div 16" using 1 by simp
    then show ?thesis using False
      by (simp add: hex.simps [of n] hex_val_snoc digit_val_hex_digit)
  qed
qed

lemma str_ptr_inj: "str_ptr p = str_ptr q \<longleftrightarrow> p = q"
proof
  assume "str_ptr p = str_ptr q"
  then have "hex p = hex q" by (simp add: str_ptr_def)
  then have "hex_val (hex p) = hex_val (hex q)" by simp
  then show "p = q" by (simp add: hex_val_hex)
qed simp

lemma hex_4200: "hex 4200 = ''1068''"
  by code_simp

lemma example_gui_fields:
  "base_addr example_gui = 4096"
  "size_v example_gui = 4"
  "messages example_gui = []"
  "values_v example_gui = [3, 1, 4, 2]"
  "elements example_gui = [Some 0, Some 1, Some 2, Some 3]"
  "temp_elements example_gui = []"
  by (simp_all add: example_gui_def run_def GuiThread_init_def upt_rec ptr_add_def
                    example_mem_def)

subsection \<open>Classification of the operands of a move\<close>

text \<open>
  C3. \<open>show_move\<close> treats each of its two operands as the classifier of the
  specification says: an operand is a slot exactly when its address lies in
  \<open>base .. base + count * stride\<close>, its index is then \<open>(address - base) / stride\<close>, and
  any other operand is the token \<open>str\<close> of its address. The record that is sent is
  made of the two classifications (a move between two tokens raises instead), and two
  addresses have the same token if and only if they are the same address.
\<close>

theorem show_move_classifies:
  "show_move stride a b g =
     (case (classify_spec stride (base_addr g) (size_v g) a,
            classify_spec stride (base_addr g) (size_v g) b) of
        (Slot i, Slot j) \<Rightarrow> Ok (send_message (Move j i) g)
      | (Slot i, Token t) \<Rightarrow> Ok (send_message (MoveFromTemp t i) g)
      | (Token t, Slot j) \<Rightarrow> Ok (send_message (MoveToTemp j t) g)
      | (Token t, Token u) \<Rightarrow>
          Raised (RuntimeError ''saw an unexpected move from temporary to temporary'') g)
   \<and> (str_ptr p = str_ptr q \<longleftrightarrow> p = q)"
  by (simp add: show_move_def classify_spec_def ptr_add_def ptr_diff_nonneg Let_def
                str_ptr_inj)

theorem show_move_classifies_witness:
  "show_move 4 4100 4200 example_gui
     = Ok (send_message (MoveFromTemp ''0x1068'' 1) example_gui)
   \<and> show_move 4 4200 4108 example_gui
     = Ok (send_message (MoveToTemp 3 ''0x1068'') example_gui)
   \<and> show_move 4 4096 4108 example_gui = Ok (send_message (Move 3 0) example_gui)
   \<and> str_ptr 4200 \<noteq> str_ptr 4204"
proof -
  note f = example_gui_fields(1,2)
  have "show_move 4 4100 4200 example_gui
          = Ok (send_message (MoveFromTemp ''0x1068'' 1) example_gui)"
    using show_move_classifies [of 4 4100 4200 example_gui 0 0]
    by (simp add: classify_spec_def f str_ptr_def hex_4200)
  moreover have "show_move 4 4200 4108 example_gui
          = Ok (send_message (MoveToTemp 3 ''0x1068'') example_gui)"
    using show_move_classifies [of 4 4200 4108 example_gui 0 0]
    by (simp add: classify_spec_def f str_ptr_def hex_4200)
  moreover have "show_move 4 4096 4108 example_gui = Ok (send_message (Move 3 0) example_gui)"
    using show_move_classifies [of 4 4096 4108 example_gui 0 0]
    by (simp add: classify_spec_def f)
  moreover have "str_ptr 4200 \<noteq> str_ptr 4204"
    using show_move_classifies [of 4 4096 4108 example_gui 4200 4204] by simp
  ultimately show ?thesis by simp
qed

subsection \<open>A move from a temporary to a temporary\<close>

text \<open>
  C5. When neither the destination nor the source of an observed move lies in the
  vector, \<open>show_move\<close> raises (the \<open>RuntimeError\<close> of the source is the
  specification's UnsupportedOperationShape) and the GuiThread is as it was: nothing
  is put on the queue, and the slots and the temporaries are untouched. At the
  breakpoint of the move, the command list ends there, with the same GuiThread.
\<close>

theorem move_between_temporaries_raises:
  assumes "\<not> (base_addr g \<le> a \<and> a < base_addr g + size_v g * stride)"
      and "\<not> (base_addr g \<le> b \<and> b < base_addr g + size_v g * stride)"
  shows "show_move stride a b g
           = Raised (RuntimeError ''saw an unexpected move from temporary to temporary'') g
         \<and> (move_bp s \<and> gui s = Some g \<longrightarrow>
              (\<exists>s'. hit stride deref (Call_move a b) s
                       = Stopped (Some (RuntimeError
                            ''saw an unexpected move from temporary to temporary'')) s'
                    \<and> gui s' = Some g))"
proof -
  have r: "show_move stride a b g
           = Raised (RuntimeError ''saw an unexpected move from temporary to temporary'') g"
    using assms by (simp add: show_move_def ptr_add_def Let_def)
  then show ?thesis
    by (simp add: move_commands_def push_frame_def)
qed

theorem move_between_temporaries_raises_witness:
  "show_move 4 4200 4300 example_gui
     = Raised (RuntimeError ''saw an unexpected move from temporary to temporary'') example_gui
   \<and> messages example_gui = []
   \<and> (\<exists>s'. hit 4 example_mem (Call_move 4200 4300)
              (initial_session\<lparr> move_bp := True, gui := Some example_gui \<rparr>)
            = Stopped (Some (RuntimeError
                 ''saw an unexpected move from temporary to temporary'')) s'
          \<and> gui s' = Some example_gui)"
  using move_between_temporaries_raises
          [of example_gui 4200 4 4300 "initial_session\<lparr> move_bp := True, gui := Some example_gui \<rparr>"
              example_mem]
  by (simp add: example_gui_fields(1,2,3))

subsection \<open>The record of a swap\<close>

text \<open>
  C10. \<open>show_swap\<close> does not classify its operands and checks no range: for any two
  addresses it returns, having put on the queue the swap of the two pointer
  differences from the base. An operand at or beyond the end of the vector gives an
  index of at least the size, and an operand one element or more below the base gives
  a negative index; neither gives a token or an exception. (An operand is an object
  of the element type and does not overlap an element of the vector, so below the
  base it lies at least one element below.)
\<close>

theorem show_swap_no_range_check:
  "show_swap stride a b g
     = send_message (Swap (ptr_diff stride a (base_addr g))
                          (ptr_diff stride b (base_addr g))) g
   \<and> (0 < stride \<and> a + stride \<le> base_addr g \<longrightarrow> ptr_diff stride a (base_addr g) < 0)
   \<and> (0 < stride \<and> base_addr g + size_v g * stride \<le> a
        \<longrightarrow> int (size_v g) \<le> ptr_diff stride a (base_addr g))"
  by (simp add: show_swap_def ptr_diff_below ptr_diff_beyond)

theorem show_swap_no_range_check_witness:
  "messages (show_swap 4 4092 4112 example_gui) = [Swap (- 1) 4]
   \<and> ptr_diff 4 4092 4096 < 0
   \<and> py_index (elements example_gui) 4 = None"
proof -
  have "ptr_diff 4 4092 4096 = - 1" and "ptr_diff 4 4112 4096 = 4"
    by (simp_all add: ptr_diff_def)
  then show ?thesis
    using show_swap_no_range_check [of 4 4092 4112 example_gui]
    by (simp add: example_gui_fields send_message_def py_index_def)
qed

section \<open>Properties of the back end\<close>

subsection \<open>Python indices and the fields that an animation leaves alone\<close>

lemma py_index_less: "py_index xs i = Some k \<Longrightarrow> k < length xs"
  by (auto simp: py_index_def Let_def split: if_splits)

lemma py_index_nonneg: "0 \<le> i \<Longrightarrow> i < int (length xs) \<Longrightarrow> py_index xs i = Some (nat i)"
  by (simp add: py_index_def)

lemma py_index_update [simp]: "py_index (xs[k := v]) i = py_index xs i"
  by (simp add: py_index_def)

lemma perform_move_fields [simp]:
  "elements (perform_move a pos g) = elements g"
  "temp_elements (perform_move a pos g) = temp_elements g"
  "messages (perform_move a pos g) = messages g"
  "values_v (perform_move a pos g) = values_v g"
  by (simp_all add: perform_move_def Let_def)

subsection \<open>Two swaps of the same slots\<close>

lemma perform_swap_None:
  "py_index (elements g) a = Some ia \<Longrightarrow> py_index (elements g) b = Some ib \<Longrightarrow>
   elements g ! ia = None \<or> elements g ! ib = None \<Longrightarrow>
   perform_swap a b g = Raised AttributeError g"
  by (auto simp: perform_swap_def split: option.splits)

lemma perform_swap_Ok:
  "py_index (elements g) a = Some ia \<Longrightarrow> py_index (elements g) b = Some ib \<Longrightarrow>
   elements g ! ia = Some ea \<Longrightarrow> elements g ! ib = Some eb \<Longrightarrow>
   \<exists>g'. perform_swap a b g = Ok g'
       \<and> elements g' = (elements g)[ia := Some eb, ib := Some ea]
       \<and> temp_elements g' = temp_elements g \<and> messages g' = messages g
       \<and> values_v g' = values_v g"
  by (simp add: perform_swap_def Let_def)

text \<open>
  C8. For two different slot indices of the list, applying the record of their swap
  twice leaves the list of elements as it was before the first. When both slots hold
  an element, both swaps return and the first one exchanges the two elements; when
  one of the slots is empty, the swap raises \<open>AttributeError\<close> before it changes
  anything.
\<close>

theorem swap_twice_restores:
  assumes "a \<noteq> b" and "0 \<le> a" and "a < int (length (elements g))"
      and "0 \<le> b" and "b < int (length (elements g))"
  shows "elements (state_of (apply_record (Swap a b)
                     (state_of (apply_record (Swap a b) g)))) = elements g
       \<and> (elements g ! nat a \<noteq> None \<and> elements g ! nat b \<noteq> None \<longrightarrow>
            (\<exists>g1 g2. apply_record (Swap a b) g = Ok g1
                   \<and> elements g1 = (elements g)[nat a := elements g ! nat b,
                                                nat b := elements g ! nat a]
                   \<and> apply_record (Swap a b) g1 = Ok g2
                   \<and> elements g2 = elements g))
       \<and> (elements g ! nat a = None \<or> elements g ! nat b = None \<longrightarrow>
            apply_record (Swap a b) g = Raised AttributeError g)"
proof -
  let ?es = "elements g"
  have ia: "py_index ?es a = Some (nat a)" and ib: "py_index ?es b = Some (nat b)"
    using assms by (simp_all add: py_index_nonneg)
  have ne: "nat a \<noteq> nat b" using assms by simp
  have la: "nat a < length ?es" and lb: "nat b < length ?es" using assms by simp_all
  show ?thesis
  proof (cases "?es ! nat a = None \<or> ?es ! nat b = None")
    case True
    then have "apply_record (Swap a b) g = Raised AttributeError g"
      using perform_swap_None [OF ia ib] by simp
    then show ?thesis using True by auto
  next
    case False
    then obtain ea eb where ea: "?es ! nat a = Some ea" and eb: "?es ! nat b = Some eb"
      by auto
    from perform_swap_Ok [OF ia ib ea eb] obtain g1 where
      g1: "perform_swap a b g = Ok g1"
      and e1: "elements g1 = ?es[nat a := Some eb, nat b := Some ea]" by blast
    have ia1: "py_index (elements g1) a = Some (nat a)"
      and ib1: "py_index (elements g1) b = Some (nat b)"
      using ia ib by (simp_all add: e1)
    have a1: "elements g1 ! nat a = Some eb" and b1: "elements g1 ! nat b = Some ea"
      using ne la lb by (simp_all add: e1)
    from perform_swap_Ok [OF ia1 ib1 a1 b1] obtain g2 where
      g2: "perform_swap a b g1 = Ok g2"
      and e2: "elements g2 = (elements g1)[nat a := Some ea, nat b := Some eb]" by blast
    have "elements g2 = ?es"
      using ne la lb ea eb by (auto simp: e2 e1 list_eq_iff_nth_eq nth_list_update)
    then show ?thesis using g1 g2 e1 ea eb False by simp
  qed
qed

theorem swap_twice_restores_witness:
  "elements (state_of (apply_record (Swap 0 1)
              (state_of (apply_record (Swap 0 1) example_gui)))) = elements example_gui
   \<and> (\<exists>g1 g2. apply_record (Swap 0 1) example_gui = Ok g1
          \<and> elements g1 = [Some 1, Some 0, Some 2, Some 3]
          \<and> apply_record (Swap 0 1) g1 = Ok g2
          \<and> elements g2 = [Some 0, Some 1, Some 2, Some 3])"
  using swap_twice_restores [of 0 1 example_gui]
  by (simp add: example_gui_fields)

subsection \<open>Moves to and from a temporary\<close>

lemma move_from_temp_missing:
  "map_of (temp_elements g) t = None \<Longrightarrow>
   apply_record (MoveFromTemp t dst) g = Raised (KeyError t) g"
  by (simp add: op_move_from_temp_def)

lemma move_from_temp_Ok:
  "map_of (temp_elements g) t = Some (pos, elt) \<Longrightarrow> py_index (elements g) dst = Some i \<Longrightarrow>
   \<exists>g'. apply_record (MoveFromTemp t dst) g = Ok g'
       \<and> elements g' = (elements g)[i := elt]
       \<and> temp_elements g' = AList.update t (pos, None) (temp_elements g)
       \<and> messages g' = messages g \<and> values_v g' = values_v g"
  by (simp add: op_move_from_temp_def Let_def)

lemma move_to_temp_Ok:
  "py_index (elements g) src = Some i \<Longrightarrow>
   \<exists>g'. apply_record (MoveToTemp src t) g = Ok g'
       \<and> elements g' = (elements g)[i := None]
       \<and> temp_elements g' =
           AList.update t
             (case map_of (temp_elements g) t of
                Some (pos, elt) \<Rightarrow> pos
              | None \<Rightarrow> (20 + 20 * of_nat (length (temp_elements g)), 60),
              elements g ! i)
             (temp_elements g)
       \<and> messages g' = messages g \<and> values_v g' = values_v g"
  by (simp add: op_move_to_temp_def Let_def)

text \<open>
  C9. A move from a temporary that is known but holds no element (its element was
  taken by an earlier move from the same temporary, say) raises nothing: the record
  is applied, \<open>None\<close> is stored in the destination slot, which is then empty, and the
  entry of the temporary stays as it was. Only a temporary that is not a key of the
  dictionary raises, the \<open>KeyError\<close> of the lookup.
\<close>

theorem move_from_emptied_temp_is_silent:
  "(map_of (temp_elements g) t = Some (pos, None) \<and> py_index (elements g) dst = Some i \<longrightarrow>
      (\<exists>g'. apply_record (MoveFromTemp t dst) g = Ok g'
           \<and> elements g' = (elements g)[i := None]
           \<and> elements g' ! i = None
           \<and> map_of (temp_elements g') t = Some (pos, None)))
   \<and> (map_of (temp_elements g) t = None \<longrightarrow>
        apply_record (MoveFromTemp t dst) g = Raised (KeyError t) g)"
proof -
  have "\<exists>g'. apply_record (MoveFromTemp t dst) g = Ok g'
           \<and> elements g' = (elements g)[i := None]
           \<and> elements g' ! i = None
           \<and> map_of (temp_elements g') t = Some (pos, None)"
    if t: "map_of (temp_elements g) t = Some (pos, None)"
      and i: "py_index (elements g) dst = Some i"
  proof -
    from move_from_temp_Ok [OF t i] obtain g' where
      g': "apply_record (MoveFromTemp t dst) g = Ok g'"
      and e: "elements g' = (elements g)[i := None]"
      and te: "temp_elements g' = AList.update t (pos, None) (temp_elements g)" by blast
    have "i < length (elements g)" using i by (rule py_index_less)
    then have "elements g' ! i = None" by (simp add: e)
    moreover have "map_of (temp_elements g') t = Some (pos, None)"
      by (simp add: te update_conv')
    ultimately show ?thesis using g' e by simp
  qed
  then show ?thesis using move_from_temp_missing by blast
qed

text \<open>
  The instance: in the example, the element of slot 3 goes to the temporary \<open>t1\<close>
  and comes back to slot 3; a second move from \<open>t1\<close>, to slot 0, returns and
  empties slot 0.
\<close>

lemma example_to_temp:
  "\<exists>g1. apply_record (MoveToTemp 3 ''t1'') example_gui = Ok g1
      \<and> elements g1 = [Some 0, Some 1, Some 2, None]
      \<and> temp_elements g1 = [(''t1'', (20, 60), Some 3)]
      \<and> values_v g1 = [3, 1, 4, 2]"
  using move_to_temp_Ok [of example_gui 3 3 "''t1''"]
  by (auto simp: example_gui_fields py_index_def)

lemma example_from_temp:
  "\<exists>g1 g2. apply_record (MoveToTemp 3 ''t1'') example_gui = Ok g1
      \<and> apply_record (MoveFromTemp ''t1'' 3) g1 = Ok g2
      \<and> elements g2 = [Some 0, Some 1, Some 2, Some 3]
      \<and> temp_elements g2 = [(''t1'', (20, 60), None)]
      \<and> values_v g2 = [3, 1, 4, 2]"
proof -
  from example_to_temp obtain g1 where
    g1: "apply_record (MoveToTemp 3 ''t1'') example_gui = Ok g1"
    and e1: "elements g1 = [Some 0, Some 1, Some 2, None]"
    and t1: "temp_elements g1 = [(''t1'', (20, 60), Some 3)]"
    and v1: "values_v g1 = [3, 1, 4, 2]" by blast
  have "map_of (temp_elements g1) ''t1'' = Some ((20, 60), Some 3)"
    and "py_index (elements g1) 3 = Some 3"
    by (simp_all add: e1 t1 py_index_def)
  from move_from_temp_Ok [OF this] obtain g2 where
    "apply_record (MoveFromTemp ''t1'' 3) g1 = Ok g2"
    "elements g2 = (elements g1)[3 := Some 3]"
    "temp_elements g2 = AList.update ''t1'' ((20, 60), None) (temp_elements g1)"
    "values_v g2 = values_v g1" by blast
  then show ?thesis using g1 by (simp add: e1 t1 v1)
qed

theorem move_from_emptied_temp_is_silent_witness:
  "\<exists>g1 g2 g3. apply_record (MoveToTemp 3 ''t1'') example_gui = Ok g1
      \<and> apply_record (MoveFromTemp ''t1'' 3) g1 = Ok g2
      \<and> elements g2 = [Some 0, Some 1, Some 2, Some 3]
      \<and> apply_record (MoveFromTemp ''t1'' 0) g2 = Ok g3
      \<and> elements g3 = [None, Some 1, Some 2, Some 3]
      \<and> apply_record (MoveFromTemp ''t2'' 0) g2 = Raised (KeyError ''t2'') g2"
proof -
  from example_from_temp obtain g1 g2 where
    g1: "apply_record (MoveToTemp 3 ''t1'') example_gui = Ok g1"
    and g2: "apply_record (MoveFromTemp ''t1'' 3) g1 = Ok g2"
    and e2: "elements g2 = [Some 0, Some 1, Some 2, Some 3]"
    and t2: "temp_elements g2 = [(''t1'', (20, 60), None)]" by blast
  have "\<exists>g3. apply_record (MoveFromTemp ''t1'' 0) g2 = Ok g3
            \<and> elements g3 = [None, Some 1, Some 2, Some 3]"
    using move_from_emptied_temp_is_silent [of g2 "''t1''" "(20, 60)" 0 0]
    by (auto simp: e2 t2 py_index_def)
  moreover have "apply_record (MoveFromTemp ''t2'' 0) g2 = Raised (KeyError ''t2'') g2"
    using move_from_emptied_temp_is_silent [of g2 "''t2''" "(20, 60)" 0 0]
    by (simp add: t2)
  ultimately show ?thesis using g1 g2 e2 by blast
qed

text \<open>
  C7. In the example \<open>[3, 1, 4, 2]\<close>, the swap of slots 0 and 1 gives the slots
  \<open>[1, 3, 4, 2]\<close>; the move of slot 3 to the temporary \<open>t1\<close> then gives
  \<open>[1, 3, 4, _]\<close> with \<open>t1\<close> holding the element of value 2; the move from \<open>t1\<close> to
  slot 3 gives \<open>[1, 3, 4, 2]\<close> again, and the entry of \<open>t1\<close> is left without an
  element and with the position it was given. In general, for a slot index that the
  list accepts and a temporary that is not yet known, the move to the temporary
  followed by the move back returns twice and restores the list of elements; the
  entry keeps the new position, one place to the right of the entries made so far.
\<close>

theorem temp_round_trip:
  "(\<exists>g1 g2 g3. apply_record (Swap 0 1) example_gui = Ok g1
       \<and> slot_values g1 = [Some 1, Some 3, Some 4, Some 2]
       \<and> apply_record (MoveToTemp 3 ''t1'') g1 = Ok g2
       \<and> slot_values g2 = [Some 1, Some 3, Some 4, None]
       \<and> map (\<lambda>(k, pos, e). (k, map_option (\<lambda>p. values_v g2 ! p) e)) (temp_elements g2)
           = [(''t1'', Some 2)]
       \<and> apply_record (MoveFromTemp ''t1'' 3) g2 = Ok g3
       \<and> slot_values g3 = [Some 1, Some 3, Some 4, Some 2]
       \<and> temp_elements g3 = [(''t1'', (20, 60), None)])
   \<and> (py_index (elements g) s = Some i \<and> map_of (temp_elements g) t = None \<longrightarrow>
       (\<exists>g1 g2. apply_record (MoveToTemp s t) g = Ok g1
           \<and> elements g1 = (elements g)[i := None]
           \<and> map_of (temp_elements g1) t
               = Some ((20 + 20 * of_nat (length (temp_elements g)), 60), elements g ! i)
           \<and> apply_record (MoveFromTemp t s) g1 = Ok g2
           \<and> elements g2 = elements g
           \<and> map_of (temp_elements g2) t
               = Some ((20 + 20 * of_nat (length (temp_elements g)), 60), None)))"
proof -
  have general: "\<exists>g1 g2. apply_record (MoveToTemp s t) g = Ok g1
           \<and> elements g1 = (elements g)[i := None]
           \<and> map_of (temp_elements g1) t
               = Some ((20 + 20 * of_nat (length (temp_elements g)), 60), elements g ! i)
           \<and> apply_record (MoveFromTemp t s) g1 = Ok g2
           \<and> elements g2 = elements g
           \<and> map_of (temp_elements g2) t
               = Some ((20 + 20 * of_nat (length (temp_elements g)), 60), None)"
    if i: "py_index (elements g) s = Some i" and t: "map_of (temp_elements g) t = None"
    for g :: GuiThread and s i t
  proof -
    let ?pos = "(20 + 20 * of_nat (length (temp_elements g)), 60) :: QPointF"
    from move_to_temp_Ok [OF i, of t] obtain g1 where
      g1: "apply_record (MoveToTemp s t) g = Ok g1"
      and e1: "elements g1 = (elements g)[i := None]"
      and t1: "temp_elements g1 = AList.update t (?pos, elements g ! i) (temp_elements g)"
      by (auto simp: t)
    have m1: "map_of (temp_elements g1) t = Some (?pos, elements g ! i)"
      by (simp add: t1 update_conv')
    have i1: "py_index (elements g1) s = Some i" using i by (simp add: e1)
    from move_from_temp_Ok [OF m1 i1] obtain g2 where
      g2: "apply_record (MoveFromTemp t s) g1 = Ok g2"
      and e2: "elements g2 = (elements g1)[i := elements g ! i]"
      and t2: "temp_elements g2 = AList.update t (?pos, None) (temp_elements g1)" by blast
    have "elements g2 = elements g" by (simp add: e2 e1)
    moreover have "map_of (temp_elements g2) t = Some (?pos, None)"
      by (simp add: t2 update_conv')
    ultimately show ?thesis using g1 e1 m1 g2 by blast
  qed
  have "py_index (elements example_gui) 0 = Some 0" "py_index (elements example_gui) 1 = Some 1"
    "elements example_gui ! 0 = Some 0" "elements example_gui ! 1 = Some 1"
    by (simp_all add: example_gui_fields py_index_def)
  from perform_swap_Ok [OF this] obtain g1 where
    g1: "apply_record (Swap 0 1) example_gui = Ok g1"
    and e1: "elements g1 = [Some 1, Some 0, Some 2, Some 3]"
    and t1: "temp_elements g1 = []"
    and v1: "values_v g1 = [3, 1, 4, 2]"
    by (auto simp: example_gui_fields)
  have i1: "py_index (elements g1) 3 = Some 3" by (simp add: e1 py_index_def)
  from move_to_temp_Ok [OF i1, of "''t1''"] obtain g2 where
    g2: "apply_record (MoveToTemp 3 ''t1'') g1 = Ok g2"
    and e2: "elements g2 = [Some 1, Some 0, Some 2, None]"
    and t2: "temp_elements g2 = [(''t1'', (20, 60), Some 3)]"
    and v2: "values_v g2 = [3, 1, 4, 2]"
    by (auto simp: e1 t1 v1)
  have "map_of (temp_elements g2) ''t1'' = Some ((20, 60), Some 3)"
    and "py_index (elements g2) 3 = Some 3"
    by (simp_all add: e2 t2 py_index_def)
  from move_from_temp_Ok [OF this] obtain g3 where
    g3: "apply_record (MoveFromTemp ''t1'' 3) g2 = Ok g3"
    and e3: "elements g3 = [Some 1, Some 0, Some 2, Some 3]"
    and t3: "temp_elements g3 = [(''t1'', (20, 60), None)]"
    and v3: "values_v g3 = [3, 1, 4, 2]"
    by (auto simp: e2 t2 v2)
  have sv: "slot_values g1 = [Some 1, Some 3, Some 4, Some 2]"
    "slot_values g2 = [Some 1, Some 3, Some 4, None]"
    "map (\<lambda>(k, pos, e). (k, map_option (\<lambda>p. values_v g2 ! p) e)) (temp_elements g2)
       = [(''t1'', Some 2)]"
    "slot_values g3 = [Some 1, Some 3, Some 4, Some 2]"
    by (simp_all add: slot_values_def e1 v1 e2 v2 t2 e3 v3)
  have example: "\<exists>g1 g2 g3. apply_record (Swap 0 1) example_gui = Ok g1
       \<and> slot_values g1 = [Some 1, Some 3, Some 4, Some 2]
       \<and> apply_record (MoveToTemp 3 ''t1'') g1 = Ok g2
       \<and> slot_values g2 = [Some 1, Some 3, Some 4, None]
       \<and> map (\<lambda>(k, pos, e). (k, map_option (\<lambda>p. values_v g2 ! p) e)) (temp_elements g2)
           = [(''t1'', Some 2)]
       \<and> apply_record (MoveFromTemp ''t1'' 3) g2 = Ok g3
       \<and> slot_values g3 = [Some 1, Some 3, Some 4, Some 2]
       \<and> temp_elements g3 = [(''t1'', (20, 60), None)]"
    by (rule exI [of _ g1], rule exI [of _ g2], rule exI [of _ g3])
       (simp only: g1 g2 g3 t3 sv simp_thms)
  show ?thesis
  proof (rule conjI)
    show "\<exists>g1 g2 g3. apply_record (Swap 0 1) example_gui = Ok g1
       \<and> slot_values g1 = [Some 1, Some 3, Some 4, Some 2]
       \<and> apply_record (MoveToTemp 3 ''t1'') g1 = Ok g2
       \<and> slot_values g2 = [Some 1, Some 3, Some 4, None]
       \<and> map (\<lambda>(k, pos, e). (k, map_option (\<lambda>p. values_v g2 ! p) e)) (temp_elements g2)
           = [(''t1'', Some 2)]
       \<and> apply_record (MoveFromTemp ''t1'' 3) g2 = Ok g3
       \<and> slot_values g3 = [Some 1, Some 3, Some 4, Some 2]
       \<and> temp_elements g3 = [(''t1'', (20, 60), None)]"
      by (rule example)
  next
    show "py_index (elements g) s = Some i \<and> map_of (temp_elements g) t = None \<longrightarrow>
       (\<exists>g1 g2. apply_record (MoveToTemp s t) g = Ok g1
           \<and> elements g1 = (elements g)[i := None]
           \<and> map_of (temp_elements g1) t
               = Some ((20 + 20 * of_nat (length (temp_elements g)), 60), elements g ! i)
           \<and> apply_record (MoveFromTemp t s) g1 = Ok g2
           \<and> elements g2 = elements g
           \<and> map_of (temp_elements g2) t
               = Some ((20 + 20 * of_nat (length (temp_elements g)), 60), None))"
      using general [of g s i t] by (intro impI) (elim conjE, assumption)
  qed
qed

theorem temp_round_trip_witness:
  "\<exists>g1 g2. apply_record (MoveToTemp 3 ''t1'') example_gui = Ok g1
      \<and> elements g1 = [Some 0, Some 1, Some 2, None]
      \<and> map_of (temp_elements g1) ''t1'' = Some ((20, 60), Some 3)
      \<and> apply_record (MoveFromTemp ''t1'' 3) g1 = Ok g2
      \<and> elements g2 = [Some 0, Some 1, Some 2, Some 3]
      \<and> map_of (temp_elements g2) ''t1'' = Some ((20, 60), None)"
  using temp_round_trip [of example_gui 3 3 "''t1''"]
  by (simp add: example_gui_fields py_index_def)

subsection \<open>A temporary that no record has registered\<close>

lemma perform_swap_temp [simp]:
  "temp_elements (state_of (perform_swap a b g)) = temp_elements g"
  by (simp add: perform_swap_def Let_def split: option.splits)

lemma op_move_temp [simp]:
  "temp_elements (state_of (op_move a b g)) = temp_elements g"
  by (simp add: op_move_def Let_def split: option.splits)

lemma apply_record_keeps_unknown:
  assumes "map_of (temp_elements g) t = None" and "\<forall>src. m \<noteq> MoveToTemp src t"
  shows "map_of (temp_elements (state_of (apply_record m g))) t = None"
proof (cases m)
  case (MoveFromTemp a b)
  then show ?thesis using assms
    by (auto simp: op_move_from_temp_def Let_def update_conv' split: option.splits)
next
  case (MoveToTemp a b)
  then have "b \<noteq> t" using assms by simp
  then show ?thesis using assms MoveToTemp
    by (auto simp: op_move_to_temp_def Let_def update_conv' split: option.splits)
qed (use assms in simp_all)

lemma apply_records_keep_unknown:
  "apply_records ms g = Ok g' \<Longrightarrow> map_of (temp_elements g) t = None \<Longrightarrow>
   \<forall>src. MoveToTemp src t \<notin> set ms \<Longrightarrow> map_of (temp_elements g') t = None"
proof (induction ms arbitrary: g)
  case Nil
  then show ?case by simp
next
  case (Cons m ms)
  from Cons.prems(1) obtain g1 where
    g1: "apply_record m g = Ok g1" and rest: "apply_records ms g1 = Ok g'"
    by (auto split: outcome.splits)
  have "\<forall>src. m \<noteq> MoveToTemp src t" using Cons.prems(3) by auto
  from apply_record_keeps_unknown [OF Cons.prems(2) this]
  have "map_of (temp_elements g1) t = None" by (simp add: g1)
  moreover have "\<forall>src. MoveToTemp src t \<notin> set ms" using Cons.prems(3) by simp
  ultimately show ?case using Cons.IH [OF rest] by blast
qed

lemma example_two_records:
  "\<exists>g. apply_records [Swap 0 1, MoveToTemp 3 ''t1''] example_gui = Ok g
      \<and> elements g = [Some 1, Some 0, Some 2, None]
      \<and> temp_elements g = [(''t1'', (20, 60), Some 3)]
      \<and> values_v g = [3, 1, 4, 2]"
proof -
  have "py_index (elements example_gui) 0 = Some 0" "py_index (elements example_gui) 1 = Some 1"
    "elements example_gui ! 0 = Some 0" "elements example_gui ! 1 = Some 1"
    by (simp_all add: example_gui_fields py_index_def)
  from perform_swap_Ok [OF this] obtain g1 where
    g1: "apply_record (Swap 0 1) example_gui = Ok g1"
    and e1: "elements g1 = [Some 1, Some 0, Some 2, Some 3]"
    and t1: "temp_elements g1 = []"
    and v1: "values_v g1 = [3, 1, 4, 2]"
    by (auto simp: example_gui_fields)
  have i1: "py_index (elements g1) 3 = Some 3" by (simp add: e1 py_index_def)
  from move_to_temp_Ok [OF i1, of "''t1''"] obtain g2 where
    "apply_record (MoveToTemp 3 ''t1'') g1 = Ok g2"
    "elements g2 = [Some 1, Some 0, Some 2, None]"
    "temp_elements g2 = [(''t1'', (20, 60), Some 3)]"
    "values_v g2 = [3, 1, 4, 2]"
    by (auto simp: e1 t1 v1)
  then show ?thesis using g1 by simp
qed

text \<open>
  C6. After any list of records has been applied to the initial state of the
  display, none of them a move to the temporary \<open>t\<close>, a move from \<open>t\<close> raises: the
  lookup of \<open>t\<close> in the dictionary fails with \<open>KeyError\<close> (the specification's
  MissingTemporary) before anything is changed. From the timer, the record is off
  the queue and the elements and the temporaries are as they were.
\<close>

theorem move_from_unknown_temp_raises:
  assumes "apply_records ms (run g0) = Ok g"
      and "\<forall>src. MoveToTemp src t \<notin> set ms"
  shows "apply_record (MoveFromTemp t dst) g = Raised (KeyError t) g
       \<and> check_for_messages (g\<lparr> messages := MoveFromTemp t dst # rest \<rparr>)
           = Raised (KeyError t) (g\<lparr> messages := rest \<rparr>)"
proof -
  have "map_of (temp_elements (run g0)) t = None" by (simp add: run_def)
  from apply_records_keep_unknown [OF assms(1) this assms(2)]
  have "map_of (temp_elements g) t = None" .
  then show ?thesis
    by (simp add: check_for_messages_def op_move_from_temp_def)
qed

theorem move_from_unknown_temp_raises_witness:
  "\<exists>g. apply_records [Swap 0 1, MoveToTemp 3 ''t1''] (run (GuiThread_init 4 example_mem 4096 4))
          = Ok g
      \<and> apply_record (MoveFromTemp ''t2'' 3) g = Raised (KeyError ''t2'') g"
proof -
  from example_two_records obtain g where
    g: "apply_records [Swap 0 1, MoveToTemp 3 ''t1''] (run (GuiThread_init 4 example_mem 4096 4))
          = Ok g"
    by (auto simp: example_gui_def)
  have "\<forall>src. MoveToTemp src ''t2'' \<notin> set [Swap 0 1, MoveToTemp 3 ''t1'']" by simp
  from move_from_unknown_temp_raises [OF g this, of 3 "[]"] show ?thesis using g by blast
qed

subsection \<open>The number of elements held\<close>

lemma filter_update_length:
  "i < length xs \<Longrightarrow>
   length (filter P (xs[i := v])) + (if P (xs ! i) then 1 else 0)
     = length (filter P xs) + (if P v then 1 else 0)"
proof (induction xs arbitrary: i)
  case Nil
  then show ?case by simp
next
  case (Cons x xs)
  show ?case
  proof (cases i)
    case 0
    then show ?thesis by simp
  next
    case (Suc j)
    then have "j < length xs" using Cons.prems by simp
    from Cons.IH [OF this] show ?thesis using Suc by simp
  qed
qed

lemma alist_update_length:
  "length (filter live (AList.update k (pos, e) al))
     + (case map_of al k of None \<Rightarrow> 0 | Some (p, e') \<Rightarrow> if e' \<noteq> None then 1 else 0)
     = length (filter live al) + (if e \<noteq> None then 1 else 0)"
  by (induction al) (auto simp: live_def)

lemma held_swap:
  assumes "perform_swap a b g = Ok g'"
  shows "held g' = held g"
proof -
  from assms obtain ia ib ea eb where
    ia: "py_index (elements g) a = Some ia" and ib: "py_index (elements g) b = Some ib"
    and ea: "elements g ! ia = Some ea" and eb: "elements g ! ib = Some eb"
    by (auto simp: perform_swap_def Let_def split: option.splits)
  from perform_swap_Ok [OF ia ib ea eb] assms
  have e: "elements g' = (elements g)[ia := Some eb, ib := Some ea]"
    and t: "temp_elements g' = temp_elements g" by auto
  let ?P = "\<lambda>e :: nat option. e \<noteq> None"
  have la: "ia < length (elements g)" and lb: "ib < length (elements g)"
    using ia ib by (auto dest: py_index_less)
  have 1: "length (filter ?P ((elements g)[ia := Some eb])) = length (filter ?P (elements g))"
    using filter_update_length [OF la, of ?P "Some eb"] ea by simp
  have "((elements g)[ia := Some eb]) ! ib \<noteq> None"
    using la eb by (cases "ia = ib") simp_all
  then have 2: "length (filter ?P ((elements g)[ia := Some eb, ib := Some ea]))
               = length (filter ?P ((elements g)[ia := Some eb]))"
    using filter_update_length [of ib "(elements g)[ia := Some eb]" ?P "Some ea"] lb by simp
  show ?thesis unfolding held_def e t by (simp only: 1 2)
qed

lemma held_move:
  assumes "dest_empty (Move a b) g" and "op_move a b g = Ok g'"
  shows "held g' = held g"
proof -
  from assms(2) obtain ia ib where
    ia: "py_index (elements g) a = Some ia" and ib: "py_index (elements g) b = Some ib"
    by (auto simp: op_move_def split: option.splits)
  have none: "elements g ! ib = None" using assms(1) ib by simp
  have e: "elements g' = (elements g)[ib := elements g ! ia, ia := None]"
    and t: "temp_elements g' = temp_elements g"
    using assms(2) ia ib by (auto simp: op_move_def Let_def)
  let ?P = "\<lambda>e :: nat option. e \<noteq> None"
  have la: "ia < length (elements g)" and lb: "ib < length (elements g)"
    using ia ib by (auto dest: py_index_less)
  have 1: "length (filter ?P ((elements g)[ib := elements g ! ia]))
             = length (filter ?P (elements g)) + (if ?P (elements g ! ia) then 1 else 0)"
    using filter_update_length [OF lb, of ?P "elements g ! ia"] none by simp
  have same: "((elements g)[ib := elements g ! ia]) ! ia = elements g ! ia"
    using lb by (cases "ia = ib") simp_all
  have "length (filter ?P ((elements g)[ib := elements g ! ia, ia := None]))
          + (if ?P (elements g ! ia) then 1 else 0)
        = length (filter ?P ((elements g)[ib := elements g ! ia]))"
    using filter_update_length [of ia "(elements g)[ib := elements g ! ia]" ?P None] la same
    by simp
  then have "length (filter ?P (elements g')) = length (filter ?P (elements g))"
    using 1 by (simp add: e split: if_splits)
  then show ?thesis by (simp add: held_def t)
qed

lemma held_move_from_temp:
  assumes "dest_empty (MoveFromTemp a b) g" and "op_move_from_temp a b g = Ok g'"
  shows "held g' = held g"
proof -
  from assms(2) obtain pos elt ib where
    a: "map_of (temp_elements g) a = Some (pos, elt)"
    and ib: "py_index (elements g) b = Some ib"
    by (auto simp: op_move_from_temp_def Let_def split: option.splits)
  have none: "elements g ! ib = None" using assms(1) ib by simp
  from move_from_temp_Ok [OF a ib] assms(2)
  have e: "elements g' = (elements g)[ib := elt]"
    and t: "temp_elements g' = AList.update a (pos, None) (temp_elements g)" by auto
  let ?P = "\<lambda>e :: nat option. e \<noteq> None"
  have lb: "ib < length (elements g)" using ib by (rule py_index_less)
  have 1: "length (filter ?P (elements g'))
             = length (filter ?P (elements g)) + (if elt \<noteq> None then 1 else 0)"
    using filter_update_length [OF lb, of ?P elt] none by (simp add: e)
  have 2: "length (filter live (temp_elements g')) + (if elt \<noteq> None then 1 else 0)
             = length (filter live (temp_elements g))"
    using alist_update_length [of a pos None "temp_elements g"] a by (simp add: t)
  show ?thesis using 1 2 by (simp add: held_def split: if_splits)
qed

lemma held_move_to_temp:
  assumes "dest_empty (MoveToTemp a b) g" and "op_move_to_temp a b g = Ok g'"
  shows "held g' = held g"
proof -
  from assms(2) obtain ia where ia: "py_index (elements g) a = Some ia"
    by (auto simp: op_move_to_temp_def Let_def split: option.splits)
  from move_to_temp_Ok [OF ia, of b] assms(2) obtain pos where
    e: "elements g' = (elements g)[ia := None]"
    and t: "temp_elements g' = AList.update b (pos, elements g ! ia) (temp_elements g)"
    by auto
  let ?P = "\<lambda>e :: nat option. e \<noteq> None"
  have la: "ia < length (elements g)" using ia by (rule py_index_less)
  have 1: "length (filter ?P (elements g')) + (if elements g ! ia \<noteq> None then 1 else 0)
             = length (filter ?P (elements g))"
    using filter_update_length [OF la, of ?P None] by (simp add: e)
  have "(case map_of (temp_elements g) b of None \<Rightarrow> 0
         | Some (p, e') \<Rightarrow> if e' \<noteq> None then 1 else 0) = (0 :: nat)"
    using assms(1) by (auto split: option.splits)
  then have 2: "length (filter live (temp_elements g'))
             = length (filter live (temp_elements g))
               + (if elements g ! ia \<noteq> None then 1 else 0)"
    using alist_update_length [of b pos "elements g ! ia" "temp_elements g"] by (simp add: t)
  show ?thesis using 1 2 by (simp add: held_def split: if_splits)
qed

lemma held_apply_record:
  assumes "dest_empty m g" and "apply_record m g = Ok g'"
  shows "held g' = held g"
proof (cases m)
  case (Swap a b)
  then show ?thesis using assms(2) by (simp add: held_swap)
next
  case (Move a b)
  then show ?thesis using assms held_move [of a b g g'] by simp
next
  case (MoveFromTemp a b)
  then show ?thesis using assms held_move_from_temp [of a b g g'] by simp
next
  case (MoveToTemp a b)
  then show ?thesis using assms held_move_to_temp [of a b g g'] by simp
next
  case (Unknown tp a b)
  then show ?thesis using assms(2) by (auto simp: held_def)
qed

lemma clean_states_after:
  "clean ms g \<Longrightarrow>
   length (states_after ms g) = length ms \<and> (\<forall>g' \<in> set (states_after ms g). held g' = held g)"
proof (induction ms arbitrary: g)
  case Nil
  then show ?case by simp
next
  case (Cons m ms)
  from Cons.prems obtain g1 where
    d: "dest_empty m g" and g1: "apply_record m g = Ok g1" and c: "clean ms g1"
    by (auto split: outcome.splits)
  have "held g1 = held g" using d g1 by (rule held_apply_record)
  then show ?case using Cons.IH [OF c] g1 by simp
qed

lemma held_run: "held (run g) = length (values_v g)"
  by (simp add: held_def run_def)

text \<open>
  C1, as the code has it. The number of slots that hold an element plus the number
  of temporaries that hold one is the size of the vector after every record of a
  list, provided that each record is applied without an exception and finds its
  destination empty: the slot that a move or a move from a temporary writes holds no
  element, and the temporary that a move to a temporary writes is unknown or holds
  none. A swap has no such condition.
\<close>

theorem held_is_size_when_destinations_empty:
  assumes "clean ms (run (GuiThread_init stride deref base n))"
  shows "length (states_after ms (run (GuiThread_init stride deref base n))) = length ms
       \<and> (\<forall>g \<in> set (states_after ms (run (GuiThread_init stride deref base n))). held g = n)"
proof -
  have "held (run (GuiThread_init stride deref base n)) = n"
    by (simp add: held_run GuiThread_init_def)
  then show ?thesis using clean_states_after [OF assms] by simp
qed

lemma example_clean:
  "clean [Swap 0 1, MoveToTemp 3 ''t1'', Move 2 3, MoveFromTemp ''t1'' 2]
     (run (GuiThread_init 4 example_mem 4096 4))"
  by (simp add: perform_swap_def op_move_def op_move_to_temp_def op_move_from_temp_def
        perform_move_def py_index_def run_def GuiThread_init_def Let_def upt_rec)

theorem held_is_size_when_destinations_empty_witness:
  "clean [Swap 0 1, MoveToTemp 3 ''t1'', Move 2 3, MoveFromTemp ''t1'' 2]
     (run (GuiThread_init 4 example_mem 4096 4))
   \<and> map held (states_after [Swap 0 1, MoveToTemp 3 ''t1'', Move 2 3, MoveFromTemp ''t1'' 2]
                 (run (GuiThread_init 4 example_mem 4096 4))) = [4, 4, 4, 4]"
proof -
  let ?xs = "states_after [Swap 0 1, MoveToTemp 3 ''t1'', Move 2 3, MoveFromTemp ''t1'' 2]
               (run (GuiThread_init 4 example_mem 4096 4))"
  have l: "length ?xs = 4" and h: "\<forall>g \<in> set ?xs. held g = 4"
    using held_is_size_when_destinations_empty [OF example_clean] by simp_all
  have "map held ?xs = replicate (length ?xs) 4"
    using h by (simp add: list_eq_iff_nth_eq)
  then have "map held ?xs = [4, 4, 4, 4]"
    by (simp only: l) (simp add: numeral_eq_Suc)
  then show ?thesis using example_clean by simp
qed

text \<open>
  C1 as it is stated, for every list of records, fails: on the full container \<open>[3, 1, 4, 2]\<close> the
  record of a move from slot 0 to slot 1 is applied without an exception, the element
  of slot 1 is overwritten, and three elements are held where four were.
\<close>

theorem held_drops_on_overwrite:
  "raised (apply_record (Move 0 1) example_gui) = None
   \<and> length (values_v example_gui) = 4
   \<and> held example_gui = 4
   \<and> elements (state_of (apply_record (Move 0 1) example_gui))
       = [None, Some 0, Some 2, Some 3]
   \<and> temp_elements (state_of (apply_record (Move 0 1) example_gui)) = []
   \<and> held (state_of (apply_record (Move 0 1) example_gui)) = 3"
  by (simp add: op_move_def py_index_def example_gui_fields Let_def held_def)

subsection \<open>One firing of the timer\<close>

lemma perform_swap_messages [simp]:
  "messages (state_of (perform_swap a b g)) = messages g"
  by (simp add: perform_swap_def Let_def split: option.splits)

lemma apply_record_messages: "messages (state_of (apply_record m g)) = messages g"
  by (cases m)
     (simp_all add: op_move_def op_move_from_temp_def op_move_to_temp_def Let_def
               split: option.splits)

lemma check_for_messages_tl:
  "messages (state_of (check_for_messages g)) = tl (messages g)"
  by (simp add: check_for_messages_def apply_record_messages)

lemma polls_drop:
  "raised (polls k g) = None \<Longrightarrow> messages (state_of (polls k g)) = drop k (messages g)"
proof (induction k arbitrary: g)
  case 0
  then show ?case by simp
next
  case (Suc k)
  from Suc.prems obtain g' where
    g': "check_for_messages g = Ok g'" and r: "raised (polls k g') = None"
    by (auto split: outcome.splits)
  have "messages g' = tl (messages g)"
    using check_for_messages_tl [of g] by (simp add: g')
  then show ?case using Suc.IH [OF r] g' by (simp add: drop_Suc)
qed

text \<open>
  C4, as the code has it. One firing of the timer takes at most one record off the
  queue: with an empty queue it returns at once and changes nothing; otherwise it
  applies the oldest record and leaves the others on the queue, in their order, for
  the next firings. So \<open>k\<close> firings that raise nothing have taken the \<open>k\<close> oldest
  records, in the order in which they were put, and a record that is put goes to the
  end of the queue.
\<close>

theorem poll_applies_oldest_record_only:
  "(messages g = [] \<longrightarrow> check_for_messages g = Ok g)
   \<and> (messages g = m # ms \<longrightarrow>
        check_for_messages g = apply_record m (g\<lparr> messages := ms \<rparr>)
        \<and> messages (state_of (check_for_messages g)) = ms)
   \<and> (raised (polls k g) = None \<longrightarrow> messages (state_of (polls k g)) = drop k (messages g))
   \<and> messages (send_message m' g) = messages g @ [m']"
proof -
  have "check_for_messages g = apply_record m (g\<lparr> messages := ms \<rparr>)
        \<and> messages (state_of (check_for_messages g)) = ms" if "messages g = m # ms"
    using that check_for_messages_tl [of g] by (simp add: check_for_messages_def)
  then show ?thesis
    using polls_drop [of k g] by (simp add: check_for_messages_def send_message_def)
qed

lemma example_poll:
  "\<exists>g'. check_for_messages (example_gui\<lparr> messages := [Swap 0 1, Swap 2 3] \<rparr>) = Ok g'
      \<and> messages g' = [Swap 2 3]
      \<and> elements g' = [Some 1, Some 0, Some 2, Some 3]"
  by (simp add: check_for_messages_def perform_swap_def py_index_def example_gui_fields
                Let_def)

theorem poll_applies_oldest_record_only_witness:
  "check_for_messages (example_gui\<lparr> messages := [] \<rparr>) = Ok (example_gui\<lparr> messages := [] \<rparr>)
   \<and> check_for_messages (example_gui\<lparr> messages := [Swap 0 1, Swap 2 3] \<rparr>)
       = apply_record (Swap 0 1) (example_gui\<lparr> messages := [Swap 2 3] \<rparr>)
   \<and> messages (state_of (check_for_messages
        (example_gui\<lparr> messages := [Swap 0 1, Swap 2 3] \<rparr>))) = [Swap 2 3]
   \<and> messages (state_of (polls 2 (example_gui\<lparr> messages := [Swap 0 1, Swap 2 3] \<rparr>))) = []"
proof -
  have r: "raised (polls 2 (example_gui\<lparr> messages := [Swap 0 1, Swap 2 3] \<rparr>)) = None"
    by (simp add: numeral_2_eq_2 check_for_messages_def perform_swap_def py_index_def
                  example_gui_fields Let_def)
  show ?thesis
    using poll_applies_oldest_record_only
            [of "example_gui\<lparr> messages := [] \<rparr>" "Swap 0 1" "[]" 0 "Swap 0 1"]
          poll_applies_oldest_record_only
            [of "example_gui\<lparr> messages := [Swap 0 1, Swap 2 3] \<rparr>" "Swap 0 1" "[Swap 2 3]" 2
                "Swap 0 1"]
          r
    by simp
qed

text \<open>
  C4 as it is stated, with all the queued records applied in one cycle, fails: with
  two swaps on the queue, one firing of the timer applies the first, and the second
  is still on the queue, its slots 2 and 3 not exchanged.
\<close>

theorem poll_leaves_second_record:
  "messages (state_of (check_for_messages
       (example_gui\<lparr> messages := [Swap 0 1, Swap 2 3] \<rparr>))) = [Swap 2 3]
   \<and> raised (check_for_messages (example_gui\<lparr> messages := [Swap 0 1, Swap 2 3] \<rparr>)) = None
   \<and> elements (state_of (check_for_messages
       (example_gui\<lparr> messages := [Swap 0 1, Swap 2 3] \<rparr>)))
       = [Some 1, Some 0, Some 2, Some 3]
   \<and> elements (state_of (apply_records [Swap 0 1, Swap 2 3] example_gui))
       = [Some 1, Some 0, Some 3, Some 2]"
  using example_poll
  by (auto simp: perform_swap_def py_index_def example_gui_fields Let_def)

section \<open>Properties of the breakpoints\<close>

subsection \<open>Moves inside a swap\<close>

lemma window_prefix:
  "moves_within d es \<Longrightarrow> \<not> move_bp s \<Longrightarrow> \<not> move_assign_bp s \<Longrightarrow>
   frames s = replicate d None @ fs \<Longrightarrow>
   \<exists>d'. run_events stride deref (take k es) s
          = Running (s\<lparr> frames := replicate d' None @ fs \<rparr>)"
proof (induction es arbitrary: d s k)
  case Nil
  then show ?case by (auto intro: exI [of _ d])
next
  case (Cons e es)
  show ?case
  proof (cases k)
    case 0
    then show ?thesis using Cons.prems by (auto intro: exI [of _ d])
  next
    case (Suc j)
    show ?thesis
    proof (cases e)
      case Return
      then have d: "0 < d" and w: "moves_within (d - 1) es" using Cons.prems(1) by simp_all
      let ?s = "s\<lparr> frames := replicate (d - 1) None @ fs \<rparr>"
      have fr: "frames s = None # replicate (d - 1) None @ fs"
        using d Cons.prems(4) by (cases d) simp_all
      then have h: "hit stride deref e s = Running ?s" using Return by simp
      from Cons.IH [OF w, of ?s j] Cons.prems(2,3) obtain d' where
        "run_events stride deref (take j es) ?s
           = Running (?s\<lparr> frames := replicate d' None @ fs \<rparr>)" by auto
      then show ?thesis using h Suc by (auto intro: exI [of _ d'])
    next
      case Call_other
      then have w: "moves_within (Suc d) es" using Cons.prems(1) by simp
      let ?s = "push_frame s"
      have h: "hit stride deref e s = Running ?s" using Call_other by simp
      have fr: "frames ?s = replicate (Suc d) None @ fs"
        using Cons.prems(4) by (simp add: push_frame_def)
      from Cons.IH [OF w _ _ fr, of j] Cons.prems(2,3) obtain d' where
        "run_events stride deref (take j es) ?s
           = Running (?s\<lparr> frames := replicate d' None @ fs \<rparr>)"
        by (auto simp: push_frame_def)
      then show ?thesis using h Suc by (auto simp: push_frame_def intro: exI [of _ d'])
    next
      case (Call_move this other)
      then have w: "moves_within (Suc d) es" using Cons.prems(1) by simp
      let ?s = "push_frame s"
      have h: "hit stride deref e s = Running ?s" using Call_move Cons.prems(2) by simp
      have fr: "frames ?s = replicate (Suc d) None @ fs"
        using Cons.prems(4) by (simp add: push_frame_def)
      from Cons.IH [OF w _ _ fr, of j] Cons.prems(2,3) obtain d' where
        "run_events stride deref (take j es) ?s
           = Running (?s\<lparr> frames := replicate d' None @ fs \<rparr>)"
        by (auto simp: push_frame_def)
      then show ?thesis using h Suc by (auto simp: push_frame_def intro: exI [of _ d'])
    next
      case (Call_move_assign this other)
      then have w: "moves_within (Suc d) es" using Cons.prems(1) by simp
      let ?s = "push_frame s"
      have h: "hit stride deref e s = Running ?s"
        using Call_move_assign Cons.prems(3) by simp
      have fr: "frames ?s = replicate (Suc d) None @ fs"
        using Cons.prems(4) by (simp add: push_frame_def)
      from Cons.IH [OF w _ _ fr, of j] Cons.prems(2,3) obtain d' where
        "run_events stride deref (take j es) ?s
           = Running (?s\<lparr> frames := replicate d' None @ fs \<rparr>)"
        by (auto simp: push_frame_def)
      then show ?thesis using h Suc by (auto simp: push_frame_def intro: exI [of _ d'])
    next
      case (Call_swap a b)
      then show ?thesis using Cons.prems(1) by simp
    next
      case (Call_sort start n)
      then show ?thesis using Cons.prems(1) by simp
    qed
  qed
qed

lemma window_closed:
  "moves_within d es \<Longrightarrow> \<not> move_bp s \<Longrightarrow> \<not> move_assign_bp s \<Longrightarrow>
   frames s = replicate d None @ fs \<Longrightarrow>
   run_events stride deref es s = Running (s\<lparr> frames := fs \<rparr>)"
proof (induction es arbitrary: d s)
  case Nil
  then show ?case by simp
next
  case (Cons e es)
  show ?case
  proof (cases e)
    case Return
    then have d: "0 < d" and w: "moves_within (d - 1) es" using Cons.prems(1) by simp_all
    let ?s = "s\<lparr> frames := replicate (d - 1) None @ fs \<rparr>"
    have fr: "frames s = None # replicate (d - 1) None @ fs"
      using d Cons.prems(4) by (cases d) simp_all
    then have h: "hit stride deref e s = Running ?s" using Return by simp
    from Cons.IH [OF w, of ?s] Cons.prems(2,3)
    have "run_events stride deref es ?s = Running (?s\<lparr> frames := fs \<rparr>)" by simp
    then show ?thesis using h by simp
  next
    case Call_other
    then have w: "moves_within (Suc d) es" using Cons.prems(1) by simp
    have h: "hit stride deref e s = Running (push_frame s)" using Call_other by simp
    have fr: "frames (push_frame s) = replicate (Suc d) None @ fs"
      using Cons.prems(4) by (simp add: push_frame_def)
    from Cons.IH [OF w _ _ fr] Cons.prems(2,3)
    have "run_events stride deref es (push_frame s) = Running (push_frame s\<lparr> frames := fs \<rparr>)"
      by (simp add: push_frame_def)
    then show ?thesis using h by (simp add: push_frame_def)
  next
    case (Call_move this other)
    then have w: "moves_within (Suc d) es" using Cons.prems(1) by simp
    have h: "hit stride deref e s = Running (push_frame s)"
      using Call_move Cons.prems(2) by simp
    have fr: "frames (push_frame s) = replicate (Suc d) None @ fs"
      using Cons.prems(4) by (simp add: push_frame_def)
    from Cons.IH [OF w _ _ fr] Cons.prems(2,3)
    have "run_events stride deref es (push_frame s) = Running (push_frame s\<lparr> frames := fs \<rparr>)"
      by (simp add: push_frame_def)
    then show ?thesis using h by (simp add: push_frame_def)
  next
    case (Call_move_assign this other)
    then have w: "moves_within (Suc d) es" using Cons.prems(1) by simp
    have h: "hit stride deref e s = Running (push_frame s)"
      using Call_move_assign Cons.prems(3) by simp
    have fr: "frames (push_frame s) = replicate (Suc d) None @ fs"
      using Cons.prems(4) by (simp add: push_frame_def)
    from Cons.IH [OF w _ _ fr] Cons.prems(2,3)
    have "run_events stride deref es (push_frame s) = Running (push_frame s\<lparr> frames := fs \<rparr>)"
      by (simp add: push_frame_def)
    then show ?thesis using h by (simp add: push_frame_def)
  next
    case (Call_swap a b)
    then show ?thesis using Cons.prems(1) by simp
  next
    case (Call_sort start n)
    then show ?thesis using Cons.prems(1) by simp
  qed
qed

lemma run_events_append:
  "run_events stride deref es s = Running s' \<Longrightarrow>
   run_events stride deref (es @ es') s = run_events stride deref es' s'"
  by (induction es arbitrary: s) (auto split: status.splits)

text \<open>
  C2. At a hit of the swap breakpoint whose call makes calls of the move constructor
  and of the move assignment before it returns, one swap record is put on the queue
  and nothing else: at every point between the entry of the swap and its return the
  two move breakpoints are disabled and the queue holds the records it held before
  and the swap; the return of the swap, through its finish breakpoint, enables the
  two move breakpoints again and puts nothing on the queue.
\<close>

theorem moves_inside_swap_are_suppressed:
  assumes "swap_bp s" and "gui s = Some g" and "moves_within 0 inner"
  shows "run_events stride deref (Call_swap a b # inner @ [Return]) s
           = Running (s\<lparr> gui := Some (show_swap stride a b g),
                          move_bp := True, move_assign_bp := True \<rparr>)
       \<and> messages (show_swap stride a b g)
           = messages g @ [Swap (ptr_diff stride a (base_addr g))
                                (ptr_diff stride b (base_addr g))]
       \<and> (\<forall>k \<le> length inner.
            \<exists>s'. run_events stride deref (Call_swap a b # take k inner) s = Running s'
                \<and> \<not> move_bp s' \<and> \<not> move_assign_bp s'
                \<and> gui s' = Some (show_swap stride a b g))"
proof -
  let ?s1 = "s\<lparr> frames := Some fbp # frames s, gui := Some (show_swap stride a b g),
                 move_bp := False, move_assign_bp := False \<rparr>"
  have h: "hit stride deref (Call_swap a b) s = Running ?s1"
    using assms(1,2) by (simp add: swap_bp_commands_def push_frame_def set_finish_def)
  have fr: "frames ?s1 = replicate 0 None @ (Some fbp # frames s)" by simp
  have inner: "run_events stride deref inner ?s1 = Running ?s1"
    using window_closed [OF assms(3) _ _ fr] by simp
  have "run_events stride deref (inner @ [Return]) ?s1
          = run_events stride deref [Return] ?s1"
    using inner by (rule run_events_append)
  also have "\<dots> = Running (s\<lparr> gui := Some (show_swap stride a b g),
                               move_bp := True, move_assign_bp := True \<rparr>)"
    by (simp add: fbp_commands_def)
  finally have whole: "run_events stride deref (Call_swap a b # inner @ [Return]) s
           = Running (s\<lparr> gui := Some (show_swap stride a b g),
                          move_bp := True, move_assign_bp := True \<rparr>)"
    using h by simp
  have inside: "\<exists>s'. run_events stride deref (Call_swap a b # take k inner) s = Running s'
                \<and> \<not> move_bp s' \<and> \<not> move_assign_bp s'
                \<and> gui s' = Some (show_swap stride a b g)" for k
  proof -
    from window_prefix [OF assms(3) _ _ fr, where k = k and stride = stride and deref = deref]
    obtain d' where
      "run_events stride deref (take k inner) ?s1
         = Running (?s1\<lparr> frames := replicate d' None @ (Some fbp # frames s) \<rparr>)" by auto
    then show ?thesis using h by simp
  qed
  have "messages (show_swap stride a b g)
           = messages g @ [Swap (ptr_diff stride a (base_addr g))
                                (ptr_diff stride b (base_addr g))]"
    by (simp add: show_swap_def send_message_def)
  then show ?thesis using whole inside by blast
qed

text \<open>
  The instance: the session after the sort has been entered on the example, then a
  swap of the first two elements whose body moves the first element to a temporary
  (a move construction) and assigns to the second element from it.
\<close>

lemma example_sort_entry:
  "run_events 4 example_mem [Call_sort 4096 4] initial_session
     = Running \<lparr> swap_bp = True, move_bp = True, move_assign_bp = True, sort_bp = True,
                 gui = Some example_gui, frames = [Some finish_bp] \<rparr>"
  by (simp add: initial_session_def sort_bp_commands_def push_frame_def set_finish_def
                example_gui_def)

theorem moves_inside_swap_are_suppressed_witness:
  "(\<exists>s'. run_events 4 example_mem
            (Call_swap 4096 4100
               # [Call_move 4200 4096, Return, Call_move_assign 4100 4200, Return] @ [Return])
            \<lparr> swap_bp = True, move_bp = True, move_assign_bp = True, sort_bp = True,
              gui = Some example_gui, frames = [Some finish_bp] \<rparr> = Running s'
         \<and> map_option messages (gui s') = Some [Swap 0 1]
         \<and> move_bp s' \<and> move_assign_bp s')
   \<and> (\<exists>s'. run_events 4 example_mem
            (Call_swap 4096 4100
               # take 3 [Call_move 4200 4096, Return, Call_move_assign 4100 4200, Return])
            \<lparr> swap_bp = True, move_bp = True, move_assign_bp = True, sort_bp = True,
              gui = Some example_gui, frames = [Some finish_bp] \<rparr> = Running s'
         \<and> \<not> move_bp s' \<and> \<not> move_assign_bp s'
         \<and> map_option messages (gui s') = Some [Swap 0 1])"
proof -
  let ?s = "\<lparr> swap_bp = True, move_bp = True, move_assign_bp = True, sort_bp = True,
              gui = Some example_gui, frames = [Some finish_bp] \<rparr>"
  let ?inner = "[Call_move 4200 4096, Return, Call_move_assign 4100 4200, Return]"
  have d: "ptr_diff 4 4096 4096 = 0" "ptr_diff 4 4100 4096 = 1"
    by (simp_all add: ptr_diff_def)
  have w: "moves_within 0 ?inner" by simp
  have m: "messages (show_swap 4 4096 4100 example_gui) = [Swap 0 1]"
    using moves_inside_swap_are_suppressed [of ?s example_gui ?inner 4 example_mem 4096 4100] w
    by (simp add: example_gui_fields d)
  have k: "(3 :: nat) \<le> length ?inner" by simp
  from moves_inside_swap_are_suppressed [of ?s example_gui ?inner 4 example_mem 4096 4100] w
  have whole: "run_events 4 example_mem (Call_swap 4096 4100 # ?inner @ [Return]) ?s
           = Running (?s\<lparr> gui := Some (show_swap 4 4096 4100 example_gui),
                          move_bp := True, move_assign_bp := True \<rparr>)"
    and inside: "\<forall>k \<le> length ?inner.
            \<exists>s'. run_events 4 example_mem (Call_swap 4096 4100 # take k ?inner) ?s = Running s'
                \<and> \<not> move_bp s' \<and> \<not> move_assign_bp s'
                \<and> gui s' = Some (show_swap 4 4096 4100 example_gui)"
    by simp_all
  from inside k obtain s' where
    "run_events 4 example_mem (Call_swap 4096 4100 # take 3 ?inner) ?s = Running s'"
    "\<not> move_bp s'" "\<not> move_assign_bp s'"
    "gui s' = Some (show_swap 4 4096 4100 example_gui)" by blast
  then have "\<exists>s'. run_events 4 example_mem (Call_swap 4096 4100 # take 3 ?inner) ?s = Running s'
         \<and> \<not> move_bp s' \<and> \<not> move_assign_bp s'
         \<and> map_option messages (gui s') = Some [Swap 0 1]"
    using m by auto
  moreover have "\<exists>s'. run_events 4 example_mem (Call_swap 4096 4100 # ?inner @ [Return]) ?s
           = Running s'
         \<and> map_option messages (gui s') = Some [Swap 0 1]
         \<and> move_bp s' \<and> move_assign_bp s'"
    using whole m by simp
  ultimately show ?thesis by blast
qed

text \<open>
  Outside a swap the same two moves are seen: each puts its record on the queue.
\<close>

lemma moves_outside_swap_are_recorded:
  "\<exists>s'. run_events 4 example_mem
           [Call_move 4200 4096, Return, Call_move_assign 4100 4200, Return]
           \<lparr> swap_bp = True, move_bp = True, move_assign_bp = True, sort_bp = True,
             gui = Some example_gui, frames = [Some finish_bp] \<rparr> = Running s'
        \<and> map_option messages (gui s')
            = Some [MoveToTemp 0 ''0x1068'', MoveFromTemp ''0x1068'' 1]"
proof -
  have 1: "show_move 4 4200 4096 example_gui
             = Ok (send_message (MoveToTemp 0 ''0x1068'') example_gui)"
    by (simp add: show_move_def example_gui_fields ptr_add_def ptr_diff_def str_ptr_def
                  hex_4200)
  have 2: "show_move 4 4100 4200 (send_message (MoveToTemp 0 ''0x1068'') example_gui)
             = Ok (send_message (MoveFromTemp ''0x1068'' 1)
                     (send_message (MoveToTemp 0 ''0x1068'') example_gui))"
    by (simp add: show_move_def send_message_def example_gui_fields ptr_add_def
                  ptr_diff_def str_ptr_def hex_4200)
  show ?thesis
    by (simp add: move_commands_def push_frame_def 1 2)
       (simp add: send_message_def example_gui_fields)
qed

end
